theory Spec2Isabelle
  imports Complex_Main "HOL-Library.Word" "HOL-Library.Signed_Division"
begin

unbundle bit_operations_syntax

section \<open>RGB32Color (codelibrary/visualization/color/rgb32_color.h)\<close>

text \<open>
  The class has four \<open>uint8_t\<close> members \<open>red_\<close>, \<open>green_\<close>, \<open>blue_\<close>, \<open>alpha_\<close>.
  The record fields carry the names of the accessors \<open>red()\<close>, \<open>green()\<close>, \<open>blue()\<close>,
  \<open>alpha()\<close>, which return the members unchanged.
\<close>

record RGB32Color =
  red :: "8 word"
  green :: "8 word"
  blue :: "8 word"
  alpha :: "8 word"

text \<open>
  \<open>explicit RGB32Color(int rgb)\<close>. The \<open>int\<close> is a 32-bit word; \<open>>>\<close> on it is the
  arithmetic shift, the conversion to \<open>uint8_t\<close> keeps the low eight bits.
\<close>

definition RGB32Color_of_int :: "32 word \<Rightarrow> RGB32Color" where
  "RGB32Color_of_int rgb =
     \<lparr> red = ucast (signed_drop_bit 16 rgb AND 0xff),
       green = ucast (signed_drop_bit 8 rgb AND 0xff),
       blue = ucast (rgb AND 0xff),
       alpha = ucast (signed_drop_bit 24 rgb) \<rparr>"

text \<open>
  \<open>ToInt\<close>: each member is widened to \<open>int\<close> (zero extension), shifted left and the four
  parts are or-ed. The left shift is taken modulo \<open>2 ^ 32\<close> (\<open>push_bit\<close> on \<open>32 word\<close>).
\<close>

definition ToInt :: "RGB32Color \<Rightarrow> 32 word" where
  "ToInt c = push_bit 24 (ucast (alpha c)) OR push_bit 16 (ucast (red c))
             OR push_bit 8 (ucast (green c)) OR ucast (blue c)"

text \<open>
  \<open>ToGrayScale\<close>: the members are widened to \<open>int\<close>; \<open>/\<close> is C++ integer division, which
  truncates towards zero (\<open>sdiv\<close>). The sum is at most \<open>255 * 32\<close>, far from the 32-bit
  range, so the arithmetic is written on \<open>int\<close>.
\<close>

definition ToGrayScale :: "RGB32Color \<Rightarrow> int" where
  "ToGrayScale c = (uint (red c) * 11 + uint (green c) * 16 + uint (blue c) * 5) sdiv 32"

text \<open>\<open>operator ==\<close> compares the four members.\<close>

definition eq_RGB32Color :: "RGB32Color \<Rightarrow> RGB32Color \<Rightarrow> bool" where
  "eq_RGB32Color c color \<longleftrightarrow>
     red c = red color \<and> green c = green color \<and> blue c = blue color \<and> alpha c = alpha color"

section \<open>PCA normal estimation in 2D (pca_estimate_normals_2d.h)\<close>

text \<open>
  The template parameter \<open>T\<close> is a floating-point type. It is idealised as \<open>real\<close>:
  every statement below is about the algorithm in exact real arithmetic, with
  \<open>std::sqrt\<close> as \<open>sqrt\<close> and \<open>std::fabs\<close> as \<open>abs\<close>. Rounding, infinities and NaN are
  outside the model.
\<close>

datatype Point2D = Point2D (p_x: real) (p_y: real)

datatype Vector2D = Vector2D (v_x: real) (v_y: real)


definition neg :: "Vector2D \<Rightarrow> Vector2D" where
  "neg v = Vector2D (- v_x v) (- v_y v)"

text \<open>
  A failed \<open>assert\<close> and an array access outside the array are results of the model.
\<close>

datatype error = AssertionFailed | IndexOutOfRange

text \<open>
  Modelled from the spec: \<open>Centroid\<close> of \<open>codelibrary/geometry/kernel/center_2d.h\<close> is
  called by \<open>PCAEstimateNormal\<close> and is not among the sources. It is the weighted centroid
  of the points, \<open>(\<Sum> w\<^sub>i p\<^sub>i) / (\<Sum> w\<^sub>i)\<close>. A floating-point division by a zero sum
  does not trap; HOL's \<open>x / 0 = 0\<close> stands for whatever point it yields then. The general
  theorems below hold for any point it returns; only the concrete runs unfold it.
\<close>

definition Centroid :: "Point2D list \<Rightarrow> real list \<Rightarrow> Point2D" where
  "Centroid points weights =
     (let wsum = sum_list weights
      in Point2D (sum_list (map2 (\<lambda>p w. w * p_x p) points weights) / wsum)
                 (sum_list (map2 (\<lambda>p w. w * p_y p) points weights) / wsum))"

text \<open>
  The accumulation loop of \<open>PCAEstimateNormal\<close>: \<open>for (p : points)\<close> with the running
  index \<open>i\<close> into \<open>weights\<close> and the accumulators \<open>a\<close>, \<open>b\<close>, \<open>c\<close>, \<open>sum\<close>
  (written \<open>wsum\<close>: \<open>sum\<close> is a constant of HOL).
\<close>

fun PCAEstimateNormal_loop ::
  "Point2D list \<Rightarrow> real list \<Rightarrow> Point2D \<Rightarrow> nat \<Rightarrow> real \<times> real \<times> real \<times> real
     \<Rightarrow> real \<times> real \<times> real \<times> real" where
  "PCAEstimateNormal_loop [] weights centroid i acc = acc"
| "PCAEstimateNormal_loop (p # ps) weights centroid i (a, b, c, wsum) =
     (let x = p_x p - p_x centroid;
          y = p_y p - p_y centroid;
          w = weights ! i
      in PCAEstimateNormal_loop ps weights centroid (i + 1)
           (a + w * x * x, b + w * x * y, c + w * y * y, wsum + w))"

text \<open>
  \<open>PCAEstimateNormal(points, weights, normal)\<close>. The two assertions come first; the
  value written to \<open>*normal\<close> is the result. The pair \<open>(cs, sn)\<close> is rebound where the
  source assigns to \<open>cs\<close> and \<open>sn\<close>; the final swap \<open>t = cs; cs = -sn; sn = t\<close> is the
  pair \<open>(- sn, cs)\<close>.
\<close>

definition PCAEstimateNormal :: "Point2D list \<Rightarrow> real list \<Rightarrow> error + Vector2D" where
  "PCAEstimateNormal points weights =
     (if points = [] then Inl AssertionFailed
      else if length points \<noteq> length weights then Inl AssertionFailed
      else
        let centroid = Centroid points weights;
            (a, b, c, wsum) = PCAEstimateNormal_loop points weights centroid 0 (0, 0, 0, 0)
        in if wsum = 0 then Inr (Vector2D 0 1)
           else
             let t = 1 / wsum;
                 a = a * t;
                 b = b * t;
                 c = c * t;
                 df = a - c;
                 rt = sqrt (df * df + b * b * 4);
                 cs = (if df > 0 then df + rt else df - rt);
                 (cs, sn) =
                   (if \<bar>cs\<bar> > \<bar>b\<bar> * 2 then
                      (let t = - b * 2 / cs;
                           sn = 1 / sqrt (t * t + 1);
                           cs = t * sn
                       in (cs, sn))
                    else if \<bar>b\<bar> = 0 then (1, 0)
                    else
                      (let t = - cs / b / 2;
                           cs = 1 / sqrt (t * t + 1);
                           sn = t * cs
                       in (cs, sn)));
                 (cs, sn) = (if df > 0 then (- sn, cs) else (cs, sn))
             in Inr (Vector2D (- sn) cs))"

text \<open>
  The overload \<open>PCAEstimateNormal(points, normal)\<close>: all weights are \<open>1\<close>.
\<close>

definition PCAEstimateNormal_uniform :: "Point2D list \<Rightarrow> error + Vector2D" where
  "PCAEstimateNormal_uniform points =
     (let weights = replicate (length points) 1 in PCAEstimateNormal points weights)"

text \<open>
  \<open>KDTree\<close> (\<open>codelibrary/util/tree/kd_tree.h\<close>) is not among the sources. The tree is an
  object: its point array and its two \<open>FindKNearestNeighbors\<close> overloads (the one that
  writes points and the one that writes indices) are the fields, so every theorem holds
  for whatever the queries return. \<open>size()\<close> is the length of the point array.
\<close>

record KDTree =
  kd_points :: "Point2D list"
  kd_FindKNearestNeighbors :: "Point2D \<Rightarrow> int \<Rightarrow> Point2D list"
  kd_FindKNearestNeighborIndices :: "Point2D \<Rightarrow> int \<Rightarrow> int list"

definition kd_size :: "KDTree \<Rightarrow> int" where
  "kd_size kd_tree = int (length (kd_points kd_tree))"

definition kd_empty :: "KDTree \<Rightarrow> bool" where
  "kd_empty kd_tree \<longleftrightarrow> kd_points kd_tree = []"

text \<open>
  Modelled from the spec: the contract of the k-nearest-neighbour query of the absent
  \<open>KDTree\<close>. Section 6 of the spec has \<open>kNearestNeighbors(query, k)\<close> return an ordered
  sequence, and section 4.2 has the returned neighbour count clamped to the size of the
  cloud: for \<open>1 \<le> k \<le> size\<close> the query returns \<open>k\<close> neighbours.
\<close>

definition knn_contract :: "KDTree \<Rightarrow> bool" where
  "knn_contract kd_tree \<longleftrightarrow>
     (\<forall>q k. 1 \<le> k \<and> k \<le> kd_size kd_tree \<longrightarrow>
        length (kd_FindKNearestNeighbors kd_tree q k) = nat k)"

text \<open>
  \<open>Array::resize(n)\<close>: keeps the first \<open>n\<close> elements and pads with default-constructed
  ones. \<open>Vector2D()\<close> is taken to be the zero vector; every padded slot is overwritten
  before it is read.
\<close>

definition resize :: "nat \<Rightarrow> Vector2D list \<Rightarrow> Vector2D list" where
  "resize n xs = take n xs @ replicate (n - length xs) (Vector2D 0 0)"

text \<open>
  The loop \<open>for (int i = 0; i < n; ++i)\<close> of \<open>PCAEstimateNormals\<close>, over the list of the
  indices still to visit; \<open>normals\<close> is the array behind the out-pointer.
\<close>

fun PCAEstimateNormals_loop ::
  "KDTree \<Rightarrow> int \<Rightarrow> nat list \<Rightarrow> Vector2D list \<Rightarrow> error + Vector2D list" where
  "PCAEstimateNormals_loop kd_tree k [] normals = Inr normals"
| "PCAEstimateNormals_loop kd_tree k (i # is) normals =
     (if i \<ge> length (kd_points kd_tree) \<or> i \<ge> length normals then Inl IndexOutOfRange
      else
        let neighbors = kd_FindKNearestNeighbors kd_tree (kd_points kd_tree ! i) k
        in case PCAEstimateNormal_uniform neighbors of
             Inl e \<Rightarrow> Inl e
           | Inr normal \<Rightarrow> PCAEstimateNormals_loop kd_tree k is (normals[i := normal]))"

text \<open>
  \<open>PCAEstimateNormals(kd_tree, k, normals)\<close>; the third argument is the content of
  \<open>*normals\<close> on entry, the result its content on return.
\<close>

definition PCAEstimateNormals :: "KDTree \<Rightarrow> int \<Rightarrow> Vector2D list \<Rightarrow> error + Vector2D list" where
  "PCAEstimateNormals kd_tree k normals =
     (if kd_empty kd_tree then Inl AssertionFailed
      else if \<not> k > 0 then Inl AssertionFailed
      else
        let n = kd_size kd_tree;
            k = min k n;
            normals = resize (nat n) normals
        in PCAEstimateNormals_loop kd_tree k [0..<nat n] normals)"




section \<open>Notions used to state the properties\<close>

text \<open>
  A symmetric 2x2 matrix \<open>[[a, b], [b, c]]\<close> is the triple \<open>(a, b, c)\<close>. The weighted
  covariance matrix of the points about the point \<open>m\<close>:
  \<open>(\<Sum> w\<^sub>i (p\<^sub>i - m) (p\<^sub>i - m)\<^sup>T) / (\<Sum> w\<^sub>i)\<close>.
\<close>

definition weighted_covariance ::
  "Point2D \<Rightarrow> Point2D list \<Rightarrow> real list \<Rightarrow> real \<times> real \<times> real" where
  "weighted_covariance m points weights =
     (sum_list (map2 (\<lambda>p w. w * (p_x p - p_x m) * (p_x p - p_x m)) points weights)
        / sum_list weights,
      sum_list (map2 (\<lambda>p w. w * (p_x p - p_x m) * (p_y p - p_y m)) points weights)
        / sum_list weights,
      sum_list (map2 (\<lambda>p w. w * (p_y p - p_y m) * (p_y p - p_y m)) points weights)
        / sum_list weights)"



text \<open>Unit Euclidean length: the squares of the components add up to 1.\<close>

definition unit_length :: "Vector2D \<Rightarrow> bool" where
  "unit_length v \<longleftrightarrow> v_x v * v_x v + v_y v * v_y v = 1"

text \<open>
  The vector that the part of \<open>PCAEstimateNormal\<close> after the scaling by \<open>1 / sum\<close> writes,
  as a function of the three matrix entries, with the two branches that cannot be taken
  together removed (\<open>PCAEstimateNormal_minor_direction\<close> below proves the equality).
\<close>

definition minor_direction :: "real \<Rightarrow> real \<Rightarrow> real \<Rightarrow> Vector2D" where
  "minor_direction a b c =
     (let df = a - c; rt = sqrt (df * df + b * b * 4) in
      if df > 0 then
        (let t = - b * 2 / (df + rt)
         in Vector2D (- (t * (1 / sqrt (t * t + 1)))) (- (1 / sqrt (t * t + 1))))
      else if \<bar>df - rt\<bar> > \<bar>b\<bar> * 2 then
        (let t = - b * 2 / (df - rt)
         in Vector2D (- (1 / sqrt (t * t + 1))) (t * (1 / sqrt (t * t + 1))))
      else if b = 0 then Vector2D 0 1
      else
        (let t = - (df - rt) / b / 2
         in Vector2D (- (t * (1 / sqrt (t * t + 1)))) (1 / sqrt (t * t + 1))))"

text \<open>
  Modelled from the spec: a reference \<open>KDTree\<close> over a point array, answering the
  k-nearest-neighbour queries of section 6 by exhaustive search: the indices of the points
  in the order of their squared distance to the query (ties in index order), cut to the
  first \<open>k\<close>. It supplies concrete trees; the theorems are about every tree.
\<close>

definition nearest_indices :: "Point2D list \<Rightarrow> Point2D \<Rightarrow> int \<Rightarrow> nat list" where
  "nearest_indices ps q k =
     take (nat k)
       (sort_key (\<lambda>i. (p_x (ps ! i) - p_x q) * (p_x (ps ! i) - p_x q)
                      + (p_y (ps ! i) - p_y q) * (p_y (ps ! i) - p_y q))
          [0..<length ps])"

definition exhaustive_tree :: "Point2D list \<Rightarrow> KDTree" where
  "exhaustive_tree ps =
     \<lparr> kd_points = ps,
       kd_FindKNearestNeighbors = (\<lambda>q k. map (\<lambda>i. ps ! i) (nearest_indices ps q k)),
       kd_FindKNearestNeighborIndices = (\<lambda>q k. map int (nearest_indices ps q k)) \<rparr>"

section \<open>Theorems about RGB32Color\<close>

lemma ff_mask: "(255 :: 32 word) = mask 8"
  by (simp add: mask_eq_exp_minus_1)

lemma alpha_of_ToInt: "alpha (RGB32Color_of_int (ToInt c)) = alpha c"
  unfolding RGB32Color_of_int_def ToInt_def
  apply simp
  apply (rule bit_word_eqI)
  apply (auto simp add: bit_simps dest: bit_imp_le_length)
  done

lemma red_of_ToInt: "red (RGB32Color_of_int (ToInt c)) = red c"
  unfolding RGB32Color_of_int_def ToInt_def ff_mask
  apply simp
  apply (rule bit_word_eqI)
  apply (auto simp add: bit_simps dest: bit_imp_le_length)
  done

lemma green_of_ToInt: "green (RGB32Color_of_int (ToInt c)) = green c"
  unfolding RGB32Color_of_int_def ToInt_def ff_mask
  apply simp
  apply (rule bit_word_eqI)
  apply (auto simp add: bit_simps dest: bit_imp_le_length)
  done

lemma blue_of_ToInt: "blue (RGB32Color_of_int (ToInt c)) = blue c"
  unfolding RGB32Color_of_int_def ToInt_def ff_mask
  apply simp
  apply (rule bit_word_eqI)
  apply (auto simp add: bit_simps dest: bit_imp_le_length)
  done

text \<open>
  C9. Packing a colour with \<open>ToInt\<close> and unpacking the result with the \<open>int\<close> constructor
  gives back a colour that \<open>operator ==\<close> finds equal to the original, for every colour;
  the shifts are those of 32-bit two's complement words.
\<close>

theorem ToInt_roundtrip: "eq_RGB32Color (RGB32Color_of_int (ToInt c)) c"
  by (simp only: eq_RGB32Color_def alpha_of_ToInt red_of_ToInt green_of_ToInt blue_of_ToInt)

lemma uint_u8_le: "uint (w :: 8 word) \<le> 255"
  using uint_lt2p [of w] by simp

text \<open>
  C10. \<open>ToGrayScale\<close> returns \<open>(11 * red + 16 * green + 5 * blue) / 32\<close> in integer
  division (the operands are not negative, so truncation and \<open>div\<close> agree), and the value
  lies between 0 and 255 inclusive.
\<close>

theorem ToGrayScale_range:
  "ToGrayScale c = (11 * uint (red c) + 16 * uint (green c) + 5 * uint (blue c)) div 32
   \<and> 0 \<le> ToGrayScale c \<and> ToGrayScale c \<le> 255"
proof -
  define s where "s = uint (red c) * 11 + uint (green c) * 16 + uint (blue c) * 5"
  have nonneg: "0 \<le> s"
    unfolding s_def by simp
  have upper: "s \<le> 8160"
    unfolding s_def using uint_u8_le [of "red c"] uint_u8_le [of "green c"] uint_u8_le [of "blue c"]
    by linarith
  have "s sdiv 32 = s div 32"
    using nonneg by (simp add: signed_divide_int_def sgn_if)
  moreover have "0 \<le> s div 32" using nonneg by simp
  moreover have "s div 32 \<le> 255" using upper by linarith
  ultimately show ?thesis
    unfolding ToGrayScale_def s_def by (simp add: algebra_simps)
qed

section \<open>Theorems about PCAEstimateNormal\<close>

lemma PCAEstimateNormal_loop_sums:
  "i + length ps \<le> length ws \<Longrightarrow>
   PCAEstimateNormal_loop ps ws m i (a, b, c, s) =
     (a + sum_list (map2 (\<lambda>p w. w * (p_x p - p_x m) * (p_x p - p_x m)) ps (drop i ws)),
      b + sum_list (map2 (\<lambda>p w. w * (p_x p - p_x m) * (p_y p - p_y m)) ps (drop i ws)),
      c + sum_list (map2 (\<lambda>p w. w * (p_y p - p_y m) * (p_y p - p_y m)) ps (drop i ws)),
      s + sum_list (take (length ps) (drop i ws)))"
proof (induction ps arbitrary: i a b c s)
  case Nil
  then show ?case by simp
next
  case (Cons p ps)
  from Cons.prems have lt: "i < length ws" by simp
  then have d: "drop i ws = ws ! i # drop (Suc i) ws"
    by (simp add: Cons_nth_drop_Suc)
  from Cons.prems have "Suc i + length ps \<le> length ws" by simp
  from Cons.IH [OF this] show ?case
    by (simp add: d Let_def algebra_simps)
qed

lemma rt_ge: "\<bar>b\<bar> * 2 \<le> sqrt (df * df + b * b * 4)"
proof -
  have le: "sqrt ((2 * b) * (2 * b)) \<le> sqrt (df * df + b * b * 4)"
    by (rule real_sqrt_le_mono) (simp add: algebra_simps)
  have eq: "sqrt ((2 * b) * (2 * b)) = \<bar>2 * b\<bar>"
    by (rule real_sqrt_abs2)
  have "\<bar>2 * b\<bar> = \<bar>b\<bar> * 2" by (simp add: abs_mult)
  with le [unfolded eq] show ?thesis by simp
qed

lemma rt_gt: "df > 0 \<Longrightarrow> \<bar>df + sqrt (df * df + b * b * 4)\<bar> > \<bar>b\<bar> * 2"
  using rt_ge [of b df] by linarith

lemma rt_sq: "sqrt (df * df + b * b * 4) * sqrt (df * df + b * b * 4) = df * df + b * b * 4"
proof -
  have "0 \<le> df * df + b * b * 4" by simp
  then show ?thesis by simp
qed

lemma tail_eq:
  fixes a b c :: real
  shows "(let df = a - c;
              rt = sqrt (df * df + b * b * 4);
              cs = (if df > 0 then df + rt else df - rt);
              (cs, sn) =
                   (if \<bar>cs\<bar> > \<bar>b\<bar> * 2 then
                      (let t = - b * 2 / cs;
                           sn = 1 / sqrt (t * t + 1);
                           cs = t * sn
                       in (cs, sn))
                    else if \<bar>b\<bar> = 0 then (1, 0)
                    else
                      (let t = - cs / b / 2;
                           cs = 1 / sqrt (t * t + 1);
                           sn = t * cs
                       in (cs, sn)));
                 (cs, sn) = (if df > 0 then (- sn, cs) else (cs, sn))
             in (Inr (Vector2D (- sn) cs) :: error + Vector2D)) = Inr (minor_direction a b c)"
proof (cases "a - c > 0")
  case True
  then show ?thesis
    using rt_gt [of "a - c" b]
    by (simp add: minor_direction_def Let_def)
next
  case False
  then show ?thesis
    by (simp add: minor_direction_def Let_def)
qed

lemma PCAEstimateNormal_minor_direction:
  assumes "points \<noteq> []" "length points = length weights" "sum_list weights \<noteq> 0"
  shows "PCAEstimateNormal points weights =
     (case weighted_covariance (Centroid points weights) points weights of
        (a, b, c) \<Rightarrow> Inr (minor_direction a b c))"
proof -
  define m where "m = Centroid points weights"
  define A where "A = sum_list (map2 (\<lambda>p w. w * (p_x p - p_x m) * (p_x p - p_x m)) points weights)"
  define B where "B = sum_list (map2 (\<lambda>p w. w * (p_x p - p_x m) * (p_y p - p_y m)) points weights)"
  define C where "C = sum_list (map2 (\<lambda>p w. w * (p_y p - p_y m) * (p_y p - p_y m)) points weights)"
  have l: "PCAEstimateNormal_loop points weights m 0 (0, 0, 0, 0) = (A, B, C, sum_list weights)"
    using PCAEstimateNormal_loop_sums [of 0 points weights m 0 0 0 0] assms
    by (simp add: A_def B_def C_def)
  have cov: "weighted_covariance m points weights =
      (A * (1 / sum_list weights), B * (1 / sum_list weights), C * (1 / sum_list weights))"
    by (simp add: weighted_covariance_def A_def B_def C_def)
  have "PCAEstimateNormal points weights =
      Inr (minor_direction (A * (1 / sum_list weights)) (B * (1 / sum_list weights)) (C * (1 / sum_list weights)))"
    unfolding PCAEstimateNormal_def m_def [symmetric]
    using assms
    apply (simp only: if_False l Let_def prod.case refl)
    apply (simp only: tail_eq [unfolded Let_def])
    apply simp
    done
  then show ?thesis
    by (simp only: cov m_def [symmetric] prod.case)
qed

lemma PCAEstimateNormal_zero_sum:
  assumes "points \<noteq> []" "length points = length weights" "sum_list weights = 0"
  shows "PCAEstimateNormal points weights = Inr (Vector2D 0 1)"
proof -
  obtain A B C where l: "PCAEstimateNormal_loop points weights (Centroid points weights) 0 (0, 0, 0, 0)
      = (A, B, C, sum_list weights)"
    using PCAEstimateNormal_loop_sums [of 0 points weights "Centroid points weights" 0 0 0 0] assms
    by simp
  show ?thesis
    unfolding PCAEstimateNormal_def using assms by (simp add: l)
qed

lemma unit_scale:
  fixes t :: real
  shows "0 < 1 / sqrt (t * t + 1)"
    and "(1 / sqrt (t * t + 1)) * (1 / sqrt (t * t + 1)) * (t * t + 1) = 1"
proof -
  have pos: "0 < t * t + 1"
    by (rule add_nonneg_pos) simp_all
  then show "0 < 1 / sqrt (t * t + 1)" by simp
  have sq: "sqrt (t * t + 1) * sqrt (t * t + 1) = t * t + 1"
    using pos by simp
  have "(1 / sqrt (t * t + 1)) * (1 / sqrt (t * t + 1)) * (t * t + 1)
      = (t * t + 1) / (sqrt (t * t + 1) * sqrt (t * t + 1))"
    by simp
  also have "\<dots> = 1" using pos by (simp only: sq) simp
  finally show "(1 / sqrt (t * t + 1)) * (1 / sqrt (t * t + 1)) * (t * t + 1) = 1" .
qed


lemma eigen_pos:
  fixes a b c rt :: real
  assumes rt: "rt * rt = (a - c) * (a - c) + b * b * 4" and nz: "a - c + rt \<noteq> 0"
  shows "a * (- (- b * 2 / (a - c + rt))) + b * (- 1) = (a + c - rt) / 2 * (- (- b * 2 / (a - c + rt)))"
    and "b * (- (- b * 2 / (a - c + rt))) + c * (- 1) = (a + c - rt) / 2 * (- 1)"
proof -
  show "a * (- (- b * 2 / (a - c + rt))) + b * (- 1) = (a + c - rt) / 2 * (- (- b * 2 / (a - c + rt)))"
    using nz by (simp add: field_simps)
  have "b * b * 4 = (rt - (a - c)) * (a - c + rt)"
    using rt by (simp add: algebra_simps)
  then have "b * b * 4 / (a - c + rt) = rt - (a - c)"
    using nz by (simp add: field_simps)
  then show "b * (- (- b * 2 / (a - c + rt))) + c * (- 1) = (a + c - rt) / 2 * (- 1)"
    by (simp add: field_simps)
qed

lemma eigen_neg:
  fixes a b c rt :: real
  assumes rt: "rt * rt = (a - c) * (a - c) + b * b * 4" and nz: "a - c - rt \<noteq> 0"
  shows "a * (- 1) + b * (- b * 2 / (a - c - rt)) = (a + c - rt) / 2 * (- 1)"
    and "b * (- 1) + c * (- b * 2 / (a - c - rt)) = (a + c - rt) / 2 * (- b * 2 / (a - c - rt))"
proof -
  have "b * b * 4 = (rt + (a - c)) * (rt - (a - c))"
    using rt by (simp add: algebra_simps)
  then have "b * b * 4 / (a - c - rt) = - (rt + (a - c))"
    using nz by (simp add: field_simps)
  then show "a * (- 1) + b * (- b * 2 / (a - c - rt)) = (a + c - rt) / 2 * (- 1)"
    by (simp add: field_simps)
  show "b * (- 1) + c * (- b * 2 / (a - c - rt)) = (a + c - rt) / 2 * (- b * 2 / (a - c - rt))"
    using nz by (simp add: field_simps)
qed

lemma eigen_tie:
  fixes a b rt :: real
  assumes rt: "rt = 2 * \<bar>b\<bar>" and nz: "b \<noteq> 0"
  shows "a * (- (- (0 - rt) / b / 2)) + b * 1 = (a + a - rt) / 2 * (- (- (0 - rt) / b / 2))"
    and "b * (- (- (0 - rt) / b / 2)) + a * 1 = (a + a - rt) / 2 * 1"
  using nz by (simp_all add: rt field_simps abs_if)

lemma minor_direction_decomp:
  fixes a b c :: real
  defines "lam \<equiv> (a + c - sqrt ((a - c) * (a - c) + b * b * 4)) / 2"
  shows "\<exists>k u v. 0 < k \<and> k * k * (u * u + v * v) = 1
           \<and> minor_direction a b c = Vector2D (k * u) (k * v)
           \<and> a * u + b * v = lam * u \<and> b * u + c * v = lam * v"
proof -
  define df where "df = a - c"
  define rt where "rt = sqrt (df * df + b * b * 4)"
  have rt2: "rt * rt = (a - c) * (a - c) + b * b * 4"
    unfolding rt_def df_def by (rule rt_sq)
  have rt0: "0 \<le> rt" unfolding rt_def by simp
  have rtb: "\<bar>b\<bar> * 2 \<le> rt" unfolding rt_def by (rule rt_ge)
  have lam: "lam = (a + c - rt) / 2"
    unfolding lam_def rt_def df_def by simp
  consider (pos) "df > 0" | (neg) "\<not> df > 0" "\<bar>df - rt\<bar> > \<bar>b\<bar> * 2"
    | (diag) "\<not> df > 0" "\<not> \<bar>df - rt\<bar> > \<bar>b\<bar> * 2" "b = 0"
    | (tie) "\<not> df > 0" "\<not> \<bar>df - rt\<bar> > \<bar>b\<bar> * 2" "b \<noteq> 0"
    by blast
  then show ?thesis
  proof cases
    case pos
    define t where "t = - b * 2 / (df + rt)"
    define k where "k = 1 / sqrt (t * t + 1)"
    have nz: "a - c + rt \<noteq> 0" using pos rt0 unfolding df_def by linarith
    have md: "minor_direction a b c = Vector2D (k * (- t)) (k * (- 1))"
      unfolding minor_direction_def Let_def df_def [symmetric] rt_def [symmetric]
        t_def [symmetric] k_def [symmetric]
      using pos by simp
    have "0 < k" and "k * k * ((- t) * (- t) + (- 1) * (- 1)) = 1"
      unfolding k_def using unit_scale [of t] by simp_all
    moreover have "a * (- t) + b * (- 1) = lam * (- t)" and "b * (- t) + c * (- 1) = lam * (- 1)"
      unfolding t_def df_def lam using eigen_pos [OF rt2 nz] by simp_all
    ultimately show ?thesis using md by blast
  next
    case neg
    define t where "t = - b * 2 / (df - rt)"
    define k where "k = 1 / sqrt (t * t + 1)"
    have nz: "a - c - rt \<noteq> 0" using neg unfolding df_def by auto
    have md: "minor_direction a b c = Vector2D (k * (- 1)) (k * t)"
      unfolding minor_direction_def Let_def df_def [symmetric] rt_def [symmetric]
        t_def [symmetric] k_def [symmetric]
      using neg by (simp add: mult.commute)
    have "0 < k" and "k * k * ((- 1) * (- 1) + t * t) = 1"
      unfolding k_def using unit_scale [of t] by (simp_all add: add.commute)
    moreover have "a * (- 1) + b * t = lam * (- 1)" and "b * (- 1) + c * t = lam * t"
      unfolding t_def df_def lam using eigen_neg [OF rt2 nz] by simp_all
    ultimately show ?thesis using md by blast
  next
    case diag
    have "rt = \<bar>df\<bar>" unfolding rt_def using diag by simp
    with diag have "df = 0" and "rt = 0" by auto
    then have ac: "a = c" and l: "lam = a" unfolding df_def lam by simp_all
    have md: "minor_direction a b c = Vector2D (1 * 0) (1 * 1)"
      unfolding minor_direction_def Let_def df_def [symmetric] rt_def [symmetric]
      using diag by simp
    have "(0::real) < 1" and "(1::real) * 1 * (0 * 0 + 1 * 1) = 1" by simp_all
    moreover have "a * 0 + b * 1 = lam * 0" and "b * 0 + c * 1 = lam * 1"
      using diag ac l by simp_all
    ultimately show ?thesis using md by blast
  next
    case tie
    from tie rtb rt0 have d0: "df = 0" and r: "rt = 2 * \<bar>b\<bar>" by linarith+
    then have ac: "c = a" unfolding df_def by simp
    define t where "t = - (df - rt) / b / 2"
    define k where "k = 1 / sqrt (t * t + 1)"
    have md: "minor_direction a b c = Vector2D (k * (- t)) (k * 1)"
      unfolding minor_direction_def Let_def df_def [symmetric] rt_def [symmetric]
        t_def [symmetric] k_def [symmetric]
      using tie by (simp add: mult.commute)
    have "0 < k" and "k * k * ((- t) * (- t) + 1 * 1) = 1"
      unfolding k_def using unit_scale [of t] by simp_all
    moreover have "a * (- t) + b * 1 = lam * (- t)" and "b * (- t) + c * 1 = lam * 1"
      unfolding t_def lam d0 ac using eigen_tie [OF r \<open>b \<noteq> 0\<close>, of a] by simp_all
    ultimately show ?thesis using md by blast
  qed
qed


lemma minor_direction_unit: "unit_length (minor_direction a b c)"
proof -
  obtain k u v where k: "k * k * (u * u + v * v) = 1"
    and md: "minor_direction a b c = Vector2D (k * u) (k * v)"
    using minor_direction_decomp [of a b c] by blast
  have "(k * u) * (k * u) + (k * v) * (k * v) = k * k * (u * u + v * v)"
    by (simp add: algebra_simps)
  with k show ?thesis
    by (simp add: unit_length_def md)
qed






lemma PCAEstimateNormal_returns:
  assumes "points \<noteq> []" "length points = length weights"
  shows "\<exists>normal. PCAEstimateNormal points weights = Inr normal"
proof (cases "sum_list weights = 0")
  case True
  with assms show ?thesis by (simp add: PCAEstimateNormal_zero_sum)
next
  case False
  with assms show ?thesis
    by (simp add: PCAEstimateNormal_minor_direction split: prod.split)
qed

lemma PCAEstimateNormal_unit:
  assumes "PCAEstimateNormal points weights = Inr normal"
  shows "unit_length normal"
proof -
  from assms have ne: "points \<noteq> []" and len: "length points = length weights"
    by (auto simp add: PCAEstimateNormal_def split: if_splits)
  show ?thesis
  proof (cases "sum_list weights = 0")
    case True
    with assms ne len show ?thesis
      by (auto simp add: PCAEstimateNormal_zero_sum unit_length_def)
  next
    case False
    with assms ne len show ?thesis
      by (auto simp add: PCAEstimateNormal_minor_direction minor_direction_unit split: prod.splits)
  qed
qed





section \<open>Theorems about the loops over the KD-tree\<close>

lemma exhaustive_contract: "knn_contract (exhaustive_tree ps)"
  by (auto simp add: knn_contract_def exhaustive_tree_def nearest_indices_def kd_size_def)

lemma PCAEstimateNormals_loop_length:
  "PCAEstimateNormals_loop kd_tree k is normals = Inr out \<Longrightarrow> length out = length normals"
proof (induction "is" arbitrary: normals)
  case Nil
  then show ?case by simp
next
  case (Cons i "is")
  then show ?case
    by (auto simp add: Let_def split: if_splits sum.splits)
qed

lemma PCAEstimateNormals_loop_entries:
  "PCAEstimateNormals_loop kd_tree k is normals = Inr out \<Longrightarrow> distinct is \<Longrightarrow>
     (\<forall>i \<in> set is. PCAEstimateNormal_uniform
         (kd_FindKNearestNeighbors kd_tree (kd_points kd_tree ! i) k) = Inr (out ! i))
     \<and> (\<forall>j. j \<notin> set is \<longrightarrow> out ! j = normals ! j)"
proof (induction "is" arbitrary: normals)
  case Nil
  then show ?case by simp
next
  case (Cons i "is")
  from Cons.prems(1) obtain normal where
    r: "i < length (kd_points kd_tree)" "i < length normals"
      "PCAEstimateNormal_uniform (kd_FindKNearestNeighbors kd_tree (kd_points kd_tree ! i) k) = Inr normal"
      "PCAEstimateNormals_loop kd_tree k is (normals[i := normal]) = Inr out"
    by (auto simp add: Let_def split: if_splits sum.splits)
  from Cons.prems(2) have d: "distinct is" and ni: "i \<notin> set is" by simp_all
  from Cons.IH [OF r(4) d] have
    ih1: "\<forall>i \<in> set is. PCAEstimateNormal_uniform
         (kd_FindKNearestNeighbors kd_tree (kd_points kd_tree ! i) k) = Inr (out ! i)"
    and ih2: "\<forall>j. j \<notin> set is \<longrightarrow> out ! j = (normals[i := normal]) ! j" by simp_all
  from ih2 ni r(2) have "out ! i = normal" by simp
  with r(3) ih1 ih2 show ?case by auto
qed

lemma PCAEstimateNormals_loop_returns:
  assumes "\<forall>i \<in> set is. i < length (kd_points kd_tree) \<and> i < length normals
      \<and> kd_FindKNearestNeighbors kd_tree (kd_points kd_tree ! i) k \<noteq> []"
  shows "\<exists>out. PCAEstimateNormals_loop kd_tree k is normals = Inr out"
  using assms
proof (induction "is" arbitrary: normals)
  case Nil
  then show ?case by simp
next
  case (Cons i "is")
  let ?nb = "kd_FindKNearestNeighbors kd_tree (kd_points kd_tree ! i) k"
  from Cons.prems have i: "i < length (kd_points kd_tree)" "i < length normals" "?nb \<noteq> []"
    by simp_all
  obtain normal where n: "PCAEstimateNormal_uniform ?nb = Inr normal"
    using PCAEstimateNormal_returns [of ?nb "replicate (length ?nb) 1"] i(3)
    by (auto simp add: PCAEstimateNormal_uniform_def)
  have "\<forall>j \<in> set is. j < length (kd_points kd_tree) \<and> j < length (normals[i := normal])
      \<and> kd_FindKNearestNeighbors kd_tree (kd_points kd_tree ! j) k \<noteq> []"
    using Cons.prems by simp
  from Cons.IH [OF this] show ?case
    using i n by (simp add: Let_def)
qed

lemma resize_length: "length (resize n xs) = n"
  by (simp add: resize_def)

lemma PCAEstimateNormals_entries:
  assumes "PCAEstimateNormals kd_tree k normals = Inr out"
  shows "length out = length (kd_points kd_tree)
     \<and> (\<forall>i < length (kd_points kd_tree).
          PCAEstimateNormal_uniform
            (kd_FindKNearestNeighbors kd_tree (kd_points kd_tree ! i) (min k (kd_size kd_tree)))
          = Inr (out ! i))"
proof -
  from assms have l: "PCAEstimateNormals_loop kd_tree (min k (kd_size kd_tree))
       [0..<nat (kd_size kd_tree)] (resize (nat (kd_size kd_tree)) normals) = Inr out"
    by (auto simp add: PCAEstimateNormals_def Let_def split: if_splits)
  have n: "nat (kd_size kd_tree) = length (kd_points kd_tree)"
    by (simp add: kd_size_def)
  from PCAEstimateNormals_loop_length [OF l] PCAEstimateNormals_loop_entries [OF l]
  show ?thesis by (simp add: n resize_length)
qed



subsection \<open>Concrete runs\<close>

lemma PCAEstimateNormal_example:
  "PCAEstimateNormal [Point2D 0 0, Point2D 2 0] [1, 1] = Inr (Vector2D 0 (- 1))"
  by (simp add: PCAEstimateNormal_def Centroid_def Let_def)

lemma PCAEstimateNormals_example:
  "PCAEstimateNormals (exhaustive_tree [Point2D 0 0, Point2D 2 0]) 2 []
     = Inr [Vector2D 0 (- 1), Vector2D 0 (- 1)]"
  by (simp add: PCAEstimateNormals_def kd_empty_def kd_size_def exhaustive_tree_def
      nearest_indices_def resize_def upt_rec PCAEstimateNormal_uniform_def
      PCAEstimateNormal_def Centroid_def Let_def numeral_2_eq_2)



subsection \<open>Properties of the estimated normals\<close>

text \<open>
  C2. Whatever the input, a normal written by \<open>PCAEstimateNormal\<close> has unit Euclidean
  length (the squares of its components add up to 1 in real arithmetic), the default
  normal of the zero-sum branch included, and on every input that passes the two
  assertions a normal is written; hence every entry of the array that
  \<open>PCAEstimateNormals\<close> produces is a unit vector.
\<close>

theorem normals_have_unit_length:
  "(PCAEstimateNormal points weights = Inr normal \<longrightarrow> unit_length normal)
   \<and> (points \<noteq> [] \<and> length points = length weights \<longrightarrow>
        (\<exists>normal. PCAEstimateNormal points weights = Inr normal \<and> unit_length normal))
   \<and> (PCAEstimateNormals kd_tree k normals = Inr out \<longrightarrow> (\<forall>v \<in> set out. unit_length v))"
proof (intro conjI impI ballI)
  assume "PCAEstimateNormal points weights = Inr normal"
  then show "unit_length normal" by (rule PCAEstimateNormal_unit)
next
  assume "points \<noteq> [] \<and> length points = length weights"
  then obtain n where "PCAEstimateNormal points weights = Inr n"
    using PCAEstimateNormal_returns by blast
  then show "\<exists>normal. PCAEstimateNormal points weights = Inr normal \<and> unit_length normal"
    using PCAEstimateNormal_unit by blast
next
  fix v
  assume r: "PCAEstimateNormals kd_tree k normals = Inr out" and v: "v \<in> set out"
  from v obtain i where i: "i < length out" and vi: "v = out ! i"
    by (auto simp add: in_set_conv_nth)
  from PCAEstimateNormals_entries [OF r] i have
    "PCAEstimateNormal_uniform
       (kd_FindKNearestNeighbors kd_tree (kd_points kd_tree ! i) (min k (kd_size kd_tree)))
     = Inr (out ! i)" by simp
  then show "unit_length v"
    unfolding vi PCAEstimateNormal_uniform_def Let_def by (rule PCAEstimateNormal_unit)
qed

theorem normals_have_unit_length_witness:
  "PCAEstimateNormal [Point2D 0 0, Point2D 2 0] [1, 1] = Inr (Vector2D 0 (- 1))
   \<and> unit_length (Vector2D 0 (- 1))
   \<and> PCAEstimateNormals (exhaustive_tree [Point2D 0 0, Point2D 2 0]) 2 []
        = Inr [Vector2D 0 (- 1), Vector2D 0 (- 1)]
   \<and> unit_length ([Vector2D 0 (- 1), Vector2D 0 (- 1)] ! 1)"
proof -
  note h1 = PCAEstimateNormal_example and h2 = PCAEstimateNormals_example
  have u: "unit_length (Vector2D 0 (- 1))
      \<and> (\<forall>v \<in> set [Vector2D 0 (- 1), Vector2D 0 (- 1)]. unit_length v)"
    using normals_have_unit_length [of "[Point2D 0 0, Point2D 2 0]" "[1, 1]" "Vector2D 0 (- 1)"
        "exhaustive_tree [Point2D 0 0, Point2D 2 0]" 2 "[]" "[Vector2D 0 (- 1), Vector2D 0 (- 1)]"]
      h1 h2 by blast
  then have "unit_length ([Vector2D 0 (- 1), Vector2D 0 (- 1)] ! 1)" by simp
  with u h1 h2 show ?thesis by blast
qed

text \<open>
  C5, as amended. On an empty KD-tree \<open>PCAEstimateNormals\<close> does not complete: its first
  assertion \<open>!kd_tree.empty()\<close> fails, for every \<open>k\<close> and every previous content of the
  output array, and no array of normals is produced.
\<close>

theorem empty_tree_rejected:
  assumes "kd_empty kd_tree"
  shows "PCAEstimateNormals kd_tree k normals = Inl AssertionFailed"
  using assms by (simp add: PCAEstimateNormals_def)

theorem empty_tree_rejected_witness:
  "kd_empty (exhaustive_tree [])
   \<and> PCAEstimateNormals (exhaustive_tree []) 3 [Vector2D 1 0] = Inl AssertionFailed"
proof -
  have h: "kd_empty (exhaustive_tree [])"
    by (simp add: kd_empty_def exhaustive_tree_def)
  from h empty_tree_rejected [OF h] show ?thesis by blast
qed

text \<open>
  C5 as stated fails: on the empty tree the normal-estimation step stops at the failed
  assertion instead of completing.
\<close>

theorem empty_tree_counterexample:
  "PCAEstimateNormals (exhaustive_tree []) 1 [] = Inl AssertionFailed"
  by (simp add: PCAEstimateNormals_def kd_empty_def exhaustive_tree_def)



text \<open>
  C7. Whenever \<open>PCAEstimateNormals\<close> returns normally, its array has exactly \<open>n\<close> normals,
  one per point, and for every index \<open>i < n\<close> entry \<open>i\<close> is the normal that
  \<open>PCAEstimateNormal\<close> computes from the \<open>min k n\<close> nearest neighbours of point \<open>i\<close>. For
  a non-empty KD-tree that answers its queries as the spec requires, and every \<open>k \<ge> 1\<close>,
  it does return normally.
\<close>

theorem normals_index_aligned:
  "(PCAEstimateNormals kd_tree k normals = Inr out \<longrightarrow>
      length out = length (kd_points kd_tree)
      \<and> (\<forall>i < length (kd_points kd_tree).
           PCAEstimateNormal_uniform
             (kd_FindKNearestNeighbors kd_tree (kd_points kd_tree ! i) (min k (kd_size kd_tree)))
           = Inr (out ! i)))
   \<and> (\<not> kd_empty kd_tree \<and> 1 \<le> k \<and> knn_contract kd_tree \<longrightarrow>
      (\<exists>out. PCAEstimateNormals kd_tree k normals = Inr out
         \<and> length out = length (kd_points kd_tree)
         \<and> (\<forall>i < length (kd_points kd_tree).
              PCAEstimateNormal_uniform
                (kd_FindKNearestNeighbors kd_tree (kd_points kd_tree ! i)
                   (min k (kd_size kd_tree)))
              = Inr (out ! i))))"
proof (rule conjI)
  show "PCAEstimateNormals kd_tree k normals = Inr out \<longrightarrow>
      length out = length (kd_points kd_tree)
      \<and> (\<forall>i < length (kd_points kd_tree).
           PCAEstimateNormal_uniform
             (kd_FindKNearestNeighbors kd_tree (kd_points kd_tree ! i) (min k (kd_size kd_tree)))
           = Inr (out ! i))"
    by (rule impI) (rule PCAEstimateNormals_entries)
next
  show "\<not> kd_empty kd_tree \<and> 1 \<le> k \<and> knn_contract kd_tree \<longrightarrow>
      (\<exists>out. PCAEstimateNormals kd_tree k normals = Inr out
         \<and> length out = length (kd_points kd_tree)
         \<and> (\<forall>i < length (kd_points kd_tree).
              PCAEstimateNormal_uniform
                (kd_FindKNearestNeighbors kd_tree (kd_points kd_tree ! i)
                   (min k (kd_size kd_tree)))
              = Inr (out ! i)))"
  proof (rule impI)
    assume a: "\<not> kd_empty kd_tree \<and> 1 \<le> k \<and> knn_contract kd_tree"
    let ?n = "kd_size kd_tree"
    from a have n1: "1 \<le> ?n"
      by (cases "kd_points kd_tree") (simp_all add: kd_empty_def kd_size_def)
    then have k': "1 \<le> min k ?n" "min k ?n \<le> ?n" using a by simp_all
    have ne: "kd_FindKNearestNeighbors kd_tree q (min k ?n) \<noteq> []" for q
    proof -
      from a k' have "length (kd_FindKNearestNeighbors kd_tree q (min k ?n)) = nat (min k ?n)"
        by (simp add: knn_contract_def)
      with k' show ?thesis by auto
    qed
    have "\<forall>i \<in> set [0..<nat ?n]. i < length (kd_points kd_tree)
        \<and> i < length (resize (nat ?n) normals)
        \<and> kd_FindKNearestNeighbors kd_tree (kd_points kd_tree ! i) (min k ?n) \<noteq> []"
      using ne by (simp add: resize_length kd_size_def)
    from PCAEstimateNormals_loop_returns [OF this] obtain out' where
      "PCAEstimateNormals_loop kd_tree (min k ?n) [0..<nat ?n] (resize (nat ?n) normals) = Inr out'"
      by blast
    with a have r: "PCAEstimateNormals kd_tree k normals = Inr out'"
      by (simp add: PCAEstimateNormals_def Let_def)
    with PCAEstimateNormals_entries [OF r]
    show "\<exists>out. PCAEstimateNormals kd_tree k normals = Inr out
           \<and> length out = length (kd_points kd_tree)
           \<and> (\<forall>i < length (kd_points kd_tree).
                PCAEstimateNormal_uniform
                  (kd_FindKNearestNeighbors kd_tree (kd_points kd_tree ! i)
                     (min k (kd_size kd_tree)))
                = Inr (out ! i))"
      by blast
  qed
qed

theorem normals_index_aligned_witness:
  "\<exists>out. PCAEstimateNormals (exhaustive_tree [Point2D 0 0, Point2D 2 0]) 2 [] = Inr out
     \<and> length out = length (kd_points (exhaustive_tree [Point2D 0 0, Point2D 2 0]))
     \<and> (\<forall>i < length (kd_points (exhaustive_tree [Point2D 0 0, Point2D 2 0])).
          PCAEstimateNormal_uniform
            (kd_FindKNearestNeighbors (exhaustive_tree [Point2D 0 0, Point2D 2 0])
               (kd_points (exhaustive_tree [Point2D 0 0, Point2D 2 0]) ! i)
               (min 2 (kd_size (exhaustive_tree [Point2D 0 0, Point2D 2 0]))))
          = Inr (out ! i))"
proof -
  have h1: "\<not> kd_empty (exhaustive_tree [Point2D 0 0, Point2D 2 0])"
    by (simp add: kd_empty_def exhaustive_tree_def)
  have h2: "(1::int) \<le> 2" by simp
  have h3: "knn_contract (exhaustive_tree [Point2D 0 0, Point2D 2 0])"
    by (rule exhaustive_contract)
  from normals_index_aligned [of "exhaustive_tree [Point2D 0 0, Point2D 2 0]" 2 "[]"] h1 h2 h3
  show ?thesis by blast
qed



end
